theory Spec2Isabelle
  imports Complex_Main "HOL-Library.Log_Nat"
begin

section \<open>Strings of the source language\<close>

text \<open>
  The source is JavaScript; its strings are sequences of UTF-16 code units. A \<^typ>\<open>char\<close>
  is read here as the code unit of the same number, so the development covers the strings
  over U+0000 .. U+00FF (Basic Latin and the Latin-1 Supplement). On that range the
  character classes and the case mappings the source relies on are written out exactly.
\<close>

definition code_unit :: "char \<Rightarrow> nat" where
  "code_unit c = of_char c"

text \<open>
  The class \<open>\s\<close> of a regular expression, which is also what \<open>String.prototype.trim\<close>
  strips: TAB, LF, VT, FF, CR, SPACE and NO-BREAK SPACE are its members below U+0100.
\<close>

definition is_space :: "char \<Rightarrow> bool" where
  "is_space c = (code_unit c \<in> set [9, 10, 11, 12, 13, 32, 160])"

text \<open>
  The class \<open>\w\<close> of a regular expression without the \<open>u\<close> flag: \<open>[A-Za-z0-9_]\<close>.
\<close>

definition is_word :: "char \<Rightarrow> bool" where
  "is_word c =
     (let n = code_unit c
      in (48 \<le> n \<and> n \<le> 57) \<or> (65 \<le> n \<and> n \<le> 90) \<or> n = 95 \<or> (97 \<le> n \<and> n \<le> 122))"

text \<open>
  \<open>String.prototype.toLowerCase\<close>: \<open>A-Z\<close> and the capital letters U+00C0 .. U+00DE
  (the multiplication sign U+00D7 apart) move up by 32; every other code unit below
  U+0100 is its own lower case.
\<close>

definition toLowerCase_char :: "char \<Rightarrow> char" where
  "toLowerCase_char c =
     (let n = code_unit c
      in if (65 \<le> n \<and> n \<le> 90) \<or> (192 \<le> n \<and> n \<le> 222 \<and> n \<noteq> 215)
         then char_of (n + 32) else c)"

definition toLowerCase :: "string \<Rightarrow> string" where
  "toLowerCase s = map toLowerCase_char s"

definition trim :: "string \<Rightarrow> string" where
  "trim s = rev (dropWhile is_space (rev (dropWhile is_space s)))"

text \<open>
  \<open>s.split(/\s+/)\<close>: the pieces of \<open>s\<close> between the maximal runs of white space. A run
  at the very start or the very end leaves an empty piece there, and the empty string
  splits into the one empty piece \<open>[""]\<close>, since \<open>\s+\<close> does not match the empty string.
  \<open>cur\<close> is the piece being read, \<open>in_sep\<close> tells that the last code unit was white space.
\<close>

fun split_from :: "string \<Rightarrow> bool \<Rightarrow> string \<Rightarrow> string list" where
  "split_from cur in_sep [] = [cur]"
| "split_from cur in_sep (c # cs) =
     (if is_space c
      then (if in_sep then split_from [] True cs else cur # split_from [] True cs)
      else split_from (cur @ [c]) False cs)"

definition split_ws :: "string \<Rightarrow> string list" where
  "split_ws s = split_from [] False s"

subsection \<open>Global, case-insensitive matching of a literal between word boundaries\<close>

text \<open>
  \<open>new RegExp('\\b' + fillerWord + '\\b', 'gi')\<close> with a filler phrase of letters and
  spaces. Without the \<open>u\<close> flag two code units match under \<open>i\<close> when their canonical
  forms agree; the canonical form is the upper case, unless that is more than one code
  unit or would turn a code unit from U+0080 on into one below it. Below U+0100 this
  relates exactly the two cases of each letter; U+00B5 and U+00FF, whose upper cases lie
  beyond U+00FF and are shared with no code unit below U+0100, stand for themselves.
\<close>

definition canonicalize :: "char \<Rightarrow> char" where
  "canonicalize c =
     (let n = code_unit c
      in if (97 \<le> n \<and> n \<le> 122) \<or> (224 \<le> n \<and> n \<le> 254 \<and> n \<noteq> 247)
         then char_of (n - 32) else c)"

text \<open>
  \<open>\b\<close> holds between two neighbouring positions when exactly one of them holds a word
  character; the positions before the start and after the end hold none.
\<close>

definition is_word_opt :: "char option \<Rightarrow> bool" where
  "is_word_opt c = (case c of None \<Rightarrow> False | Some x \<Rightarrow> is_word x)"

definition word_boundary :: "char option \<Rightarrow> char option \<Rightarrow> bool" where
  "word_boundary prev nxt = (is_word_opt prev \<noteq> is_word_opt nxt)"

text \<open>
  \<open>match_literal p prev text\<close>: the literal \<open>p\<close> read at the start of \<open>text\<close>, whose last
  code unit read so far is \<open>prev\<close>; the result is the last code unit matched and the
  text left, for the closing \<open>\b\<close>.
\<close>

fun match_literal :: "string \<Rightarrow> char option \<Rightarrow> string \<Rightarrow> (char option \<times> string) option" where
  "match_literal [] prev text = Some (prev, text)"
| "match_literal (p # ps) prev [] = None"
| "match_literal (p # ps) prev (c # cs) =
     (if canonicalize c = canonicalize p then match_literal ps (Some c) cs else None)"

definition matches_here :: "string \<Rightarrow> char option \<Rightarrow> string \<Rightarrow> bool" where
  "matches_here p prev text =
     (word_boundary prev (case text of [] \<Rightarrow> None | c # _ \<Rightarrow> Some c) \<and>
      (case match_literal p prev text of
         None \<Rightarrow> False
       | Some (l, rest) \<Rightarrow> word_boundary l (case rest of [] \<Rightarrow> None | c # _ \<Rightarrow> Some c)))"

text \<open>
  \<open>text.match(regex)\<close> with the \<open>g\<close> flag collects the matches from left to right, each
  search starting where the last match ended; \<open>count_from\<close> is the number of them.
  \<open>skip\<close> counts the code units still covered by the last match.
\<close>

fun count_from :: "string \<Rightarrow> nat \<Rightarrow> char option \<Rightarrow> string \<Rightarrow> nat" where
  "count_from p skip prev [] = 0"
| "count_from p skip prev (c # cs) =
     (if skip = 0 \<and> matches_here p prev (c # cs)
      then 1 + count_from p (length p - 1) (Some c) cs
      else count_from p (skip - 1) (Some c) cs)"

definition match_count :: "string \<Rightarrow> string \<Rightarrow> nat" where
  "match_count p text = count_from p 0 None text"

section \<open>Numbers of the source language\<close>

text \<open>
  A JavaScript number is an IEEE 754 double. The counters and clock readings of the
  program are integers, which a double holds exactly up to \<open>2 ^ 53\<close>; they are modelled
  as \<^typ>\<open>nat\<close> and \<^typ>\<open>int\<close>. A quotient or product is the exact result rounded to the
  nearest double, ties to the even significand: \<open>to_double\<close>, on the rationals, for the
  normal range of exponents (all quotients of two such integers lie there).
\<close>

definition round_half_even :: "rat \<Rightarrow> int" where
  "round_half_even x =
     (let f = \<lfloor>x\<rfloor>; d = x - of_int f
      in if d < 1 / 2 then f else if 1 / 2 < d then f + 1 else if even f then f else f + 1)"

text \<open>\<open>binade x\<close> is the exponent \<open>k\<close> with \<open>2 ^ k \<le> \<bar>x\<bar> < 2 ^ (k + 1)\<close>, for \<open>x \<noteq> 0\<close>.\<close>

definition binade :: "rat \<Rightarrow> int" where
  "binade x =
     (let (a, b) = quotient_of \<bar>x\<bar>;
          k = bitlen a - bitlen b
      in if power_int 2 k \<le> \<bar>x\<bar> then k else k - 1)"

definition to_double :: "rat \<Rightarrow> rat" where
  "to_double x =
     (if x = 0 then 0
      else let u = power_int 2 (binade x - 52)
           in of_int (round_half_even (x / u)) * u)"

definition fdiv :: "rat \<Rightarrow> rat \<Rightarrow> rat" where
  "fdiv x y = to_double (x / y)"

definition fmul :: "rat \<Rightarrow> rat \<Rightarrow> rat" where
  "fmul x y = to_double (x * y)"

text \<open>\<open>Math.round\<close>: the nearest integer, a tie going up.\<close>

definition Math_round :: "rat \<Rightarrow> int" where
  "Math_round x = \<lfloor>x + 1 / 2\<rfloor>"

text \<open>The decimal digits of a natural number.\<close>

fun decimal :: "nat \<Rightarrow> string" where
  "decimal n =
     (if n < 10 then [char_of (48 + n)] else decimal (n div 10) @ [char_of (48 + n mod 10)])"

declare decimal.simps [simp del]

text \<open>
  \<open>x.toFixed(2)\<close>: with \<open>n\<close> the integer for which \<open>n / 100\<close> is nearest to \<open>\<bar>x\<bar>\<close> (the
  larger one on a tie), the digits of \<open>n\<close>, filled with zeros to three digits at least,
  with the point before the last two, after a minus sign when \<open>x < 0\<close>.
\<close>

definition toFixed2 :: "rat \<Rightarrow> string" where
  "toFixed2 x =
     (let n = nat \<lfloor>\<bar>x\<bar> * 100 + 1 / 2\<rfloor>;
          m = decimal n;
          m' = replicate (3 - length m) (CHR ''0'') @ m;
          k = length m' - 2
      in (if x < 0 then ''-'' else []) @ take k m' @ ''.'' @ drop k m')"

text \<open>The values a caller can be handed where the source mixes types.\<close>

datatype jsval = JUndefined | JBool bool | JNum rat | JStr string

section \<open>The speech recognition manager\<close>

text \<open>
  \<open>emotionScores\<close>, \<open>sentimentDictionary\<close> and the reported \<open>emotionalTone\<close> are objects of
  the one shape \<open>{positive, negative, neutral}\<close>.
\<close>

record 'a sentiment =
  positive :: 'a
  negative :: 'a
  neutral :: 'a

text \<open>
  The fields the constructor assigns when the platform offers recognition. A callback
  is an observer outside the program: the state records whether one is installed, and a
  call of it is an event of the trace below. \<open>startTime\<close> is \<open>null\<close> or a clock reading in
  milliseconds, \<open>analyticsTimer\<close> is \<open>null\<close> or the handle \<open>setInterval\<close> returned.
\<close>

record manager =
  isRecording :: bool
  transcriptText :: string
  startTime :: "int option"
  wordCount :: nat
  fillerWordCount :: nat
  uniqueWords :: "string set"
  emotionScores :: "nat sentiment"
  onTranscriptUpdate :: bool
  onAnalyticsUpdate :: bool
  analyticsTimer :: "nat option"

definition fillerWords :: "string list" where
  "fillerWords =
     [''um'', ''uh'', ''like'', ''you know'', ''actually'', ''basically'', ''literally'',
      ''sort of'', ''kind of'']"

definition sentimentDictionary :: "string list sentiment" where
  "sentimentDictionary =
     \<lparr>positive = [''great'', ''awesome'', ''happy'', ''excellent'', ''wonderful'', ''love'',
                  ''fantastic''],
      negative = [''bad'', ''terrible'', ''sad'', ''awful'', ''hate'', ''horrible'',
                  ''disappointing''],
      neutral = [''okay'', ''fine'', ''normal'', ''usual'']\<rparr>"

text \<open>
  The object the analytics callback receives. Its field \<open>fillerWordCount\<close> is
  \<open>fillerWordCount_reported\<close> here, the shorter name being the manager's field.
\<close>

record analytics =
  speakingPace :: int
  fillerWordCount_reported :: nat
  vocabularyDiversity :: string
  emotionalTone :: "jsval sentiment"
  duration :: int

text \<open>What the manager does to the world around it, in order.\<close>

datatype event =
    ConsoleLog string
  | ConsoleWarn string
  | ConsoleError string
  | RecognitionStart
  | RecognitionStop
  | SetInterval nat
  | ClearInterval "nat option"
  | TranscriptUpdate string string
  | AnalyticsUpdate analytics bool

subsection \<open>\<open>_processTranscript\<close>\<close>

definition words_of :: "string \<Rightarrow> string list" where
  "words_of transcript = split_ws (toLowerCase (trim transcript))"

text \<open>\<open>word.replace(/[^\w\s]|_/g, "")\<close>\<close>

definition cleanWord :: "string \<Rightarrow> string" where
  "cleanWord word = filter (\<lambda>c. \<not> ((\<not> is_word c \<and> \<not> is_space c) \<or> c = CHR ''_'')) word"

definition process_word :: "manager \<Rightarrow> string \<Rightarrow> manager" where
  "process_word m word =
     (let w = cleanWord word
      in if 0 < length w
         then let m1 = m\<lparr>uniqueWords := insert w (uniqueWords m)\<rparr>; e = emotionScores m1
              in if w \<in> set (positive sentimentDictionary)
                 then m1\<lparr>emotionScores := e\<lparr>positive := positive e + 1\<rparr>\<rparr>
                 else if w \<in> set (negative sentimentDictionary)
                 then m1\<lparr>emotionScores := e\<lparr>negative := negative e + 1\<rparr>\<rparr>
                 else if w \<in> set (neutral sentimentDictionary)
                 then m1\<lparr>emotionScores := e\<lparr>neutral := neutral e + 1\<rparr>\<rparr>
                 else m1
         else m)"

definition count_filler :: "string \<Rightarrow> manager \<Rightarrow> string \<Rightarrow> manager" where
  "count_filler transcript m fillerWord =
     (let matches = match_count fillerWord transcript
      in if 0 < matches then m\<lparr>fillerWordCount := fillerWordCount m + matches\<rparr> else m)"

definition processTranscript :: "string \<Rightarrow> bool \<Rightarrow> manager \<Rightarrow> manager" where
  "processTranscript transcript isInterim m =
     (let words = words_of transcript;
          m1 = (if \<not> isInterim then m\<lparr>wordCount := wordCount m + length words\<rparr> else m);
          m2 = foldl process_word m1 words
      in if \<not> isInterim then foldl (count_filler transcript) m2 fillerWords else m2)"

subsection \<open>\<open>_updateAnalytics\<close>\<close>

text \<open>\<open>if (!this.startTime)\<close>: \<open>null\<close> and the number 0 are both falsy.\<close>

definition truthy_time :: "int option \<Rightarrow> bool" where
  "truthy_time t = (case t of None \<Rightarrow> False | Some n \<Rightarrow> n \<noteq> 0)"

text \<open>\<open>(Date.now() - this.startTime) / 1000 / 60\<close>, an unset \<open>startTime\<close> counting as 0.\<close>

definition minutes_since :: "int option \<Rightarrow> int \<Rightarrow> rat" where
  "minutes_since t now =
     fdiv (fdiv (of_int (now - (case t of None \<Rightarrow> 0 | Some n \<Rightarrow> n))) 1000) 60"

definition tone_of :: "nat sentiment \<Rightarrow> jsval sentiment" where
  "tone_of e =
     (let totalEmotion = positive e + negative e + neutral e
      in if 0 < totalEmotion
         then \<lparr>positive = JStr (toFixed2 (fdiv (of_nat (positive e)) (of_nat totalEmotion))),
               negative = JStr (toFixed2 (fdiv (of_nat (negative e)) (of_nat totalEmotion))),
               neutral = JStr (toFixed2 (fdiv (of_nat (neutral e)) (of_nat totalEmotion)))\<rparr>
         else \<lparr>positive = JNum 0, negative = JNum 0, neutral = JNum 1\<rparr>)"

definition diversity_of :: "manager \<Rightarrow> rat" where
  "diversity_of m =
     (if 0 < wordCount m then fdiv (of_nat (card (uniqueWords m))) (of_nat (wordCount m))
      else 0)"

definition snapshot :: "int \<Rightarrow> manager \<Rightarrow> analytics" where
  "snapshot now m =
     (let duration = minutes_since (startTime m) now;
          wpm = (if 0 < duration then Math_round (fdiv (of_nat (wordCount m)) duration) else 0)
      in \<lparr>speakingPace = wpm,
          fillerWordCount_reported = fillerWordCount m,
          vocabularyDiversity = toFixed2 (diversity_of m),
          emotionalTone = tone_of (emotionScores m),
          duration = Math_round (fmul duration 60)\<rparr>)"

text \<open>
  \<open>_updateAnalytics(isFinal)\<close> with the clock reading \<open>now\<close>: the state after it and the
  events it causes.
\<close>

definition updateAnalytics :: "bool \<Rightarrow> int \<Rightarrow> manager \<Rightarrow> manager \<times> event list" where
  "updateAnalytics isFinal now m =
     (if \<not> truthy_time (startTime m) then (m, [])
      else let analytics = snapshot now m
           in if onAnalyticsUpdate m then (m, [AnalyticsUpdate analytics isFinal]) else (m, []))"

subsection \<open>The handlers of the recognition events\<close>

text \<open>
  \<open>onresult\<close>: \<open>results\<close> are the entries of \<open>event.results\<close> from \<open>event.resultIndex\<close> on,
  each the transcript of its first alternative with its \<open>isFinal\<close> flag. The loop keeps
  \<open>interimTranscript\<close>, \<open>finalTranscript\<close> and the manager.
\<close>

definition result_step :: "string \<times> string \<times> manager \<Rightarrow> string \<times> bool \<Rightarrow> string \<times> string \<times> manager" where
  "result_step acc r =
     (case acc of (interimTranscript, finalTranscript, m) \<Rightarrow>
        (case r of (transcript, isFinal) \<Rightarrow>
           if isFinal
           then (interimTranscript, finalTranscript @ transcript, processTranscript transcript False m)
           else (interimTranscript @ transcript, finalTranscript, processTranscript transcript True m)))"

definition onresult :: "(string \<times> bool) list \<Rightarrow> int \<Rightarrow> manager \<Rightarrow> manager \<times> event list" where
  "onresult results now m =
     (case foldl result_step ([], [], m) results of (interimTranscript, finalTranscript, m1) \<Rightarrow>
        let m2 = m1\<lparr>transcriptText := trim (transcriptText m1 @ '' '' @ finalTranscript)\<rparr>;
            evs = (if onTranscriptUpdate m2
                   then [TranscriptUpdate (transcriptText m2) interimTranscript] else [])
        in (case updateAnalytics False now m2 of (m3, evs') \<Rightarrow> (m3, evs @ evs')))"

subsection \<open>\<open>start\<close> and \<open>stop\<close>\<close>

text \<open>
  \<open>recognition.start()\<close> and \<open>recognition.stop()\<close> are calls into the platform. Whether
  such a call returns or throws is for the platform to say: \<open>src_ok\<close>. \<open>now\<close> is the reading
  of \<open>Date.now()\<close>, \<open>handle\<close> the value \<open>setInterval\<close> returns.
\<close>

datatype exn = SourceException

text \<open>
  The \<open>try\<close> block of \<open>start\<close>, up to where control leaves it: at its end, or at the call
  that throws, with the assignments made until then.
\<close>

definition start_try :: "bool \<Rightarrow> int \<Rightarrow> nat \<Rightarrow> manager \<Rightarrow> exn option \<times> manager \<times> event list" where
  "start_try src_ok now handle m =
     (let m1 = m\<lparr>isRecording := True\<rparr>
      in if \<not> src_ok then (Some SourceException, m1, [RecognitionStart])
         else let m2 = m1\<lparr>startTime := Some now\<rparr>;
                  m3 = m2\<lparr>wordCount := 0, fillerWordCount := 0, uniqueWords := {},
                          emotionScores := \<lparr>positive = 0, negative = 0, neutral = 0\<rparr>,
                          transcriptText := []\<rparr>;
                  m4 = m3\<lparr>analyticsTimer := Some handle\<rparr>
              in (None, m4,
                  [RecognitionStart, SetInterval handle, ConsoleLog ''Speech recognition started'']))"

text \<open>
  The \<open>try\<close> block of \<open>stop\<close>. \<open>Date.now()\<close> is read once by \<open>stop\<close> itself (\<open>now\<close>) and
  once more inside \<open>_updateAnalytics\<close> (\<open>now'\<close>).
\<close>

definition stop_try :: "bool \<Rightarrow> int \<Rightarrow> int \<Rightarrow> manager \<Rightarrow> exn option \<times> manager \<times> event list" where
  "stop_try src_ok now now' m =
     (let m1 = m\<lparr>isRecording := False\<rparr>
      in if \<not> src_ok then (Some SourceException, m1, [RecognitionStop])
         else let evs = [RecognitionStop, ClearInterval (analyticsTimer m1)]
              in if truthy_time (startTime m1)
                 then let duration = minutes_since (startTime m1) now
                      in if 0 < duration
                         then (case updateAnalytics True now' m1 of (m2, evs') \<Rightarrow>
                                 (None, m2, evs @ evs' @ [ConsoleLog ''Speech recognition stopped'']))
                         else (None, m1,
                               evs @ [ConsoleWarn ''Speech duration too short to calculate analytics.'',
                                      ConsoleLog ''Speech recognition stopped''])
                 else (None, m1, evs @ [ConsoleLog ''Speech recognition stopped'']))"

text \<open>
  The object the constructor leaves. Without recognition on the platform the constructor
  returns before its first assignment: the object has none of the fields of
  \<^typ>\<open>manager\<close>, and only the two setters can give it one, a callback each.
\<close>

datatype SpeechRecognitionManager =
    Unsupported bool bool
  | Supported manager

definition constructor :: "bool \<Rightarrow> SpeechRecognitionManager \<times> event list" where
  "constructor supported =
     (if \<not> supported
      then (Unsupported False False,
            [ConsoleError ''Speech recognition not supported in this browser''])
      else (Supported
              \<lparr>isRecording = False, transcriptText = [], startTime = None, wordCount = 0,
               fillerWordCount = 0, uniqueWords = {},
               emotionScores = \<lparr>positive = 0, negative = 0, neutral = 0\<rparr>,
               onTranscriptUpdate = False, onAnalyticsUpdate = False, analyticsTimer = None\<rparr>,
            []))"

text \<open>
  A method returns the exception that leaves it, if any, the object after the call and
  the events of the call. \<open>if (!this.recognition) return\<close> is the first case.
\<close>

definition start :: "bool \<Rightarrow> int \<Rightarrow> nat \<Rightarrow> SpeechRecognitionManager \<Rightarrow>
    exn option \<times> SpeechRecognitionManager \<times> event list" where
  "start src_ok now handle obj =
     (case obj of
        Unsupported t a \<Rightarrow> (None, obj, [])
      | Supported m \<Rightarrow>
          (case start_try src_ok now handle m of
             (None, m', evs) \<Rightarrow> (None, Supported m', evs)
           | (Some error, m', evs) \<Rightarrow>
               (None, Supported m', evs @ [ConsoleError ''Error starting speech recognition:''])))"

definition stop :: "bool \<Rightarrow> int \<Rightarrow> int \<Rightarrow> SpeechRecognitionManager \<Rightarrow>
    exn option \<times> SpeechRecognitionManager \<times> event list" where
  "stop src_ok now now' obj =
     (case obj of
        Unsupported t a \<Rightarrow> (None, obj, [])
      | Supported m \<Rightarrow>
          (case stop_try src_ok now now' m of
             (None, m', evs) \<Rightarrow> (None, Supported m', evs)
           | (Some error, m', evs) \<Rightarrow>
               (None, Supported m', evs @ [ConsoleError ''Error stopping speech recognition:''])))"

definition setTranscriptUpdateCallback :: "bool \<Rightarrow> SpeechRecognitionManager \<Rightarrow> SpeechRecognitionManager" where
  "setTranscriptUpdateCallback callback obj =
     (case obj of
        Unsupported t a \<Rightarrow> Unsupported callback a
      | Supported m \<Rightarrow> Supported (m\<lparr>onTranscriptUpdate := callback\<rparr>))"

definition setAnalyticsUpdateCallback :: "bool \<Rightarrow> SpeechRecognitionManager \<Rightarrow> SpeechRecognitionManager" where
  "setAnalyticsUpdateCallback callback obj =
     (case obj of
        Unsupported t a \<Rightarrow> Unsupported t callback
      | Supported m \<Rightarrow> Supported (m\<lparr>onAnalyticsUpdate := callback\<rparr>))"

text \<open>The accessors return the field as it is; a field never assigned reads \<open>undefined\<close>.\<close>

definition getTranscript :: "SpeechRecognitionManager \<Rightarrow> jsval" where
  "getTranscript obj =
     (case obj of Unsupported t a \<Rightarrow> JUndefined | Supported m \<Rightarrow> JStr (transcriptText m))"

definition isListening :: "SpeechRecognitionManager \<Rightarrow> jsval" where
  "isListening obj =
     (case obj of Unsupported t a \<Rightarrow> JUndefined | Supported m \<Rightarrow> JBool (isRecording m))"

text \<open>
  The events the platform sends to a manager that listens (the handlers are installed by
  the constructor, on a supported platform only), and the tick of the analytics timer.
\<close>

definition handle_result :: "(string \<times> bool) list \<Rightarrow> int \<Rightarrow> SpeechRecognitionManager \<Rightarrow>
    SpeechRecognitionManager \<times> event list" where
  "handle_result results now obj =
     (case obj of
        Unsupported t a \<Rightarrow> (obj, [])
      | Supported m \<Rightarrow> (case onresult results now m of (m', evs) \<Rightarrow> (Supported m', evs)))"

definition handle_tick :: "int \<Rightarrow> SpeechRecognitionManager \<Rightarrow> SpeechRecognitionManager \<times> event list" where
  "handle_tick now obj =
     (case obj of
        Unsupported t a \<Rightarrow> (obj, [])
      | Supported m \<Rightarrow> (case updateAnalytics False now m of (m', evs) \<Rightarrow> (Supported m', evs)))"

text \<open>\<open>onerror\<close> logs and calls \<open>stop()\<close>.\<close>

definition handle_error :: "bool \<Rightarrow> int \<Rightarrow> int \<Rightarrow> SpeechRecognitionManager \<Rightarrow>
    exn option \<times> SpeechRecognitionManager \<times> event list" where
  "handle_error src_ok now now' obj =
     (case stop src_ok now now' obj of
        (x, obj', evs) \<Rightarrow> (x, obj', ConsoleError ''Speech recognition error:'' # evs))"

text \<open>
  \<open>onend\<close> restarts the source while recording (outside any \<open>try\<close>, so an exception of
  the source leaves the handler), and otherwise clears the timer and reports a last time.
\<close>

definition handle_end :: "bool \<Rightarrow> int \<Rightarrow> SpeechRecognitionManager \<Rightarrow>
    exn option \<times> SpeechRecognitionManager \<times> event list" where
  "handle_end src_ok now obj =
     (case obj of
        Unsupported t a \<Rightarrow> (None, obj, [])
      | Supported m \<Rightarrow>
          if isRecording m
          then ((if src_ok then None else Some SourceException), obj, [RecognitionStart])
          else (case updateAnalytics True now m of
                  (m', evs) \<Rightarrow> (None, Supported m', ClearInterval (analyticsTimer m) # evs)))"

text \<open>Reading a trace: the snapshots delivered as final, and those delivered at all.\<close>

fun final_updates :: "event list \<Rightarrow> analytics list" where
  "final_updates [] = []"
| "final_updates (AnalyticsUpdate a True # evs) = a # final_updates evs"
| "final_updates (e # evs) = final_updates evs"

fun updates :: "event list \<Rightarrow> (analytics \<times> bool) list" where
  "updates [] = []"
| "updates (AnalyticsUpdate a f # evs) = (a, f) # updates evs"
| "updates (e # evs) = updates evs"

section \<open>Notions of the specification\<close>

text \<open>
  The white-space-delimited tokens of a text, as the specification counts them: its
  maximal runs of code units that are not white space.
\<close>

fun tokens_from :: "string \<Rightarrow> string \<Rightarrow> string list" where
  "tokens_from cur [] = (if cur = [] then [] else [cur])"
| "tokens_from cur (c # cs) =
     (if is_space c
      then (if cur = [] then tokens_from [] cs else cur # tokens_from [] cs)
      else tokens_from (cur @ [c]) cs)"

definition ws_tokens :: "string \<Rightarrow> string list" where
  "ws_tokens text = tokens_from [] text"

text \<open>
  The clean token in the specification's words: every code unit that is neither a word
  character nor white space is removed, and nothing else. A word character, in the
  Unicode reading, is a letter, a digit or the underscore; below U+0100 the letters
  outside \<open>A-Za-z\<close> are U+00AA, U+00B5, U+00BA and U+00C0 .. U+00FF without the
  multiplication and the division sign.
\<close>

definition is_word_unicode :: "char \<Rightarrow> bool" where
  "is_word_unicode c =
     (let n = code_unit c
      in is_word c \<or> n = 170 \<or> n = 181 \<or> n = 186 \<or> (192 \<le> n \<and> n \<noteq> 215 \<and> n \<noteq> 247))"

definition spec_clean_token :: "string \<Rightarrow> string" where
  "spec_clean_token word = filter (\<lambda>c. is_word_unicode c \<or> is_space c) word"

text \<open>The letters \<open>A-Z\<close>, \<open>a-z\<close> and the digits \<open>0-9\<close>.\<close>

definition is_alnum :: "char \<Rightarrow> bool" where
  "is_alnum c =
     (let n = code_unit c
      in (48 \<le> n \<and> n \<le> 57) \<or> (65 \<le> n \<and> n \<le> 90) \<or> (97 \<le> n \<and> n \<le> 122))"

text \<open>
  A session in which no more distinct words were collected than words were counted.
\<close>

definition counted :: "manager \<Rightarrow> bool" where
  "counted m = (finite (uniqueWords m) \<and> card (uniqueWords m) \<le> wordCount m)"

text \<open>
  A run of result events, each with the clock reading at its arrival, and the runs in
  which every fragment is final.
\<close>

fun feed :: "((string \<times> bool) list \<times> int) list \<Rightarrow> manager \<Rightarrow> manager" where
  "feed [] m = m"
| "feed (e # es) m = feed es (fst (onresult (fst e) (snd e) m))"

definition only_final :: "((string \<times> bool) list \<times> int) list \<Rightarrow> bool" where
  "only_final es = list_all (\<lambda>e. list_all snd (fst e)) es"

text \<open>The final fragments of a run, in the order of their arrival.\<close>

definition fragments :: "((string \<times> bool) list \<times> int) list \<Rightarrow> string list" where
  "fragments es = map fst (concat (map fst es))"

text \<open>An example: the manager right after a successful \<open>start()\<close> at clock reading 1000.\<close>

definition listening :: manager where
  "listening =
     \<lparr>isRecording = True, transcriptText = [], startTime = Some 1000, wordCount = 0,
      fillerWordCount = 0, uniqueWords = {},
      emotionScores = \<lparr>positive = 0, negative = 0, neutral = 0\<rparr>,
      onTranscriptUpdate = False, onAnalyticsUpdate = True, analyticsTimer = Some 7\<rparr>"

text \<open>The manager the constructor leaves on a platform with recognition.\<close>

definition idle :: manager where
  "idle =
     \<lparr>isRecording = False, transcriptText = [], startTime = None, wordCount = 0,
      fillerWordCount = 0, uniqueWords = {},
      emotionScores = \<lparr>positive = 0, negative = 0, neutral = 0\<rparr>,
      onTranscriptUpdate = False, onAnalyticsUpdate = False, analyticsTimer = None\<rparr>"

section \<open>Rounding to a double\<close>

lemma round_half_even_close: "\<bar>of_int (round_half_even x) - x\<bar> \<le> 1 / 2"
proof -
  define f where "f = \<lfloor>x\<rfloor>"
  have "of_int f \<le> x" "x < of_int f + 1" unfolding f_def by linarith+
  then show ?thesis
    unfolding round_half_even_def Let_def f_def [symmetric]
    by (simp add: abs_if)
qed

lemma round_half_even_pos: "1 \<le> x \<Longrightarrow> 0 < round_half_even x"
  using round_half_even_close [of x] by (simp add: abs_if split: if_splits) linarith?

lemma round_half_even_neg: "x \<le> - 1 \<Longrightarrow> round_half_even x < 0"
  using round_half_even_close [of x] by (simp add: abs_if split: if_splits) linarith?

lemma round_half_even_le: "x \<le> of_int n \<Longrightarrow> round_half_even x \<le> n"
proof -
  assume "x \<le> of_int n"
  with round_half_even_close [of x] have "(of_int (round_half_even x) :: rat) < of_int n + 1"
    by (simp add: abs_if split: if_splits)
  then have "(of_int (round_half_even x) :: rat) < of_int (n + 1)" by simp
  then have "round_half_even x < n + 1" by (simp only: of_int_less_iff)
  then show ?thesis by simp
qed

lemma binade_le:
  assumes "x \<noteq> 0" shows "power_int 2 (binade x) \<le> \<bar>x\<bar>"
proof -
  obtain a b where q: "quotient_of \<bar>x\<bar> = (a, b)" by (cases "quotient_of \<bar>x\<bar>")
  have b: "0 < b" using q quotient_of_denom_pos by blast
  have x: "\<bar>x\<bar> = of_int a / of_int b" using q quotient_of_div by blast
  have a: "0 < a" 
  proof (rule ccontr)
    assume "\<not> 0 < a"
    then have "of_int a / (of_int b :: rat) \<le> 0" using b by (simp add: divide_nonpos_pos)
    with x assms show False by simp
  qed
  let ?k = "bitlen a - bitlen b"
  have la: "1 \<le> bitlen a" using a bitlen_eq_zero_iff [of a] bitlen_nonneg [of a] by linarith
  have lb: "0 \<le> bitlen b" by (rule bitlen_nonneg)
  have "(2::int) ^ nat (bitlen a - 1) \<le> a" using bitlen_bounds [OF a] by simp
  then have "(of_int ((2::int) ^ nat (bitlen a - 1)) :: rat) \<le> of_int a" by (simp only: of_int_le_iff)
  then have A: "power_int (2::rat) (bitlen a - 1) \<le> of_int a"
    using la by (simp add: power_int_def)
  have "b < (2::int) ^ nat (bitlen b)" using bitlen_bounds [OF b] by simp
  then have "(of_int b :: rat) < of_int ((2::int) ^ nat (bitlen b))" by (simp only: of_int_less_iff)
  then have B: "of_int b < power_int (2::rat) (bitlen b)"
    using lb by (simp add: power_int_def)
  have "power_int (2::rat) (?k - 1) = power_int 2 (bitlen a - 1) / power_int 2 (bitlen b)"
    by (simp add: power_int_diff)
  also have "\<dots> \<le> of_int a / power_int 2 (bitlen b)"
    using A by (simp add: divide_right_mono)
  also have "\<dots> \<le> of_int a / of_int b"
    using B a b by (simp add: frac_le)
  finally have low: "power_int (2::rat) (?k - 1) \<le> \<bar>x\<bar>" using x by simp
  show ?thesis
    unfolding binade_def q using low by (simp add: Let_def)
qed

lemma to_double_pos: assumes "0 < x" shows "0 < to_double x"
proof -
  let ?u = "power_int (2::rat) (binade x - 52)"
  have u: "0 < ?u" by simp
  have "power_int 2 (binade x) \<le> x" using binade_le [of x] assms by simp
  then have "power_int 2 (binade x) / ?u \<le> x / ?u"
    by (rule divide_right_mono) simp
  moreover have "power_int (2::rat) (binade x) / ?u = 2 ^ 52"
    by (simp add: power_int_diff)
  moreover have "(1::rat) \<le> 2 ^ 52" by simp
  ultimately have "1 \<le> x / ?u" by linarith
  then have "0 < round_half_even (x / ?u)" by (rule round_half_even_pos)
  then show ?thesis using assms u unfolding to_double_def Let_def by (simp add: zero_less_mult_iff)
qed

lemma to_double_neg: assumes "x < 0" shows "to_double x < 0"
proof -
  let ?u = "power_int (2::rat) (binade x - 52)"
  have u: "0 < ?u" by simp
  have "power_int 2 (binade x) \<le> - x" using binade_le [of x] assms by simp
  then have "power_int 2 (binade x) / ?u \<le> (- x) / ?u"
    by (rule divide_right_mono) simp
  moreover have "power_int (2::rat) (binade x) / ?u = 2 ^ 52"
    by (simp add: power_int_diff)
  moreover have "(- x) / ?u = - (x / ?u)" by simp
  moreover have "(1::rat) \<le> 2 ^ 52" by simp
  ultimately have "x / ?u \<le> - 1" by linarith
  then have "round_half_even (x / ?u) < 0" by (rule round_half_even_neg)
  then show ?thesis using assms u unfolding to_double_def Let_def by (simp add: mult_less_0_iff)
qed

lemma to_double_zero: "to_double 0 = 0"
  by (simp add: to_double_def)

lemma to_double_le_one: assumes "0 < x" "x \<le> 1" shows "to_double x \<le> 1"
proof -
  let ?e = "binade x - 52"
  let ?u = "power_int (2::rat) ?e"
  have u: "0 < ?u" by simp
  have "power_int (2::rat) (binade x) \<le> 1" using binade_le [of x] assms by simp
  then have "binade x \<le> 0"
    by (metis power_int_0_right one_less_numeral_iff semiring_norm(76) not_le
        power_int_strict_increasing)
  then have e: "?e \<le> 0" by simp
  have inv: "1 / ?u = of_int (2 ^ nat (- ?e))"
    using e by (simp add: power_int_def field_simps)
  have "x / ?u \<le> 1 / ?u" using assms u by (simp add: divide_right_mono)
  then have "round_half_even (x / ?u) \<le> 2 ^ nat (- ?e)"
    unfolding inv by (rule round_half_even_le)
  then have "(of_int (round_half_even (x / ?u)) :: rat) \<le> of_int (2 ^ nat (- ?e))"
    by (simp only: of_int_le_iff)
  then have "of_int (round_half_even (x / ?u)) * ?u \<le> of_int (2 ^ nat (- ?e)) * ?u"
    using u by (simp add: mult_right_mono)
  also have "of_int (2 ^ nat (- ?e)) * ?u = 1" using inv u by (simp add: field_simps)
  finally show ?thesis using assms unfolding to_double_def Let_def by simp
qed

section \<open>Fragments\<close>

lemma split_from_no_space:
  "w \<in> set (split_from cur b s) \<Longrightarrow> list_all (\<lambda>c. \<not> is_space c) cur \<Longrightarrow> list_all (\<lambda>c. \<not> is_space c) w"
  by (induction cur b s rule: split_from.induct) (auto split: if_splits)

lemma words_of_no_space:
  "w \<in> set (words_of t) \<Longrightarrow> list_all (\<lambda>c. \<not> is_space c) w"
  unfolding words_of_def split_ws_def by (erule split_from_no_space) simp

lemma trim_blank: "list_all is_space t \<Longrightarrow> trim t = []"
proof -
  assume "list_all is_space t"
  then have d: "dropWhile is_space t = []" by (induction t) simp_all
  show ?thesis unfolding trim_def d by simp
qed

lemma words_of_blank: "list_all is_space t \<Longrightarrow> words_of t = [[]]"
  by (simp add: words_of_def trim_blank toLowerCase_def split_ws_def)

lemma process_word_empty: "cleanWord w = [] \<Longrightarrow> process_word m w = m"
  by (simp add: process_word_def)

lemma canonicalize_space: "is_space c \<Longrightarrow> canonicalize c = c"
  by (auto simp: is_space_def canonicalize_def Let_def)

lemma count_from_blank:
  assumes "\<not> is_space (canonicalize p)" 
  shows "list_all is_space t \<Longrightarrow> count_from (p # ps) k prev t = 0"
proof (induction t arbitrary: k prev)
  case Nil
  then show ?case by simp
next
  case (Cons c cs)
  then have "is_space c" by simp
  then have "canonicalize c \<noteq> canonicalize p" using assms canonicalize_space by metis
  then have "\<not> matches_here (p # ps) prev (c # cs)" by (simp add: matches_here_def)
  with Cons show ?case by simp
qed

lemma filler_first_letters:
  "list_all (\<lambda>p. p \<noteq> [] \<and> \<not> is_space (canonicalize (hd p))) fillerWords"
  by code_simp

lemma match_count_blank:
  assumes "p \<in> set fillerWords" "list_all is_space t" shows "match_count p t = 0"
proof -
  from assms(1) filler_first_letters have "p \<noteq> [] \<and> \<not> is_space (canonicalize (hd p))"
    by (simp add: list_all_iff)
  then obtain c cs where "p = c # cs" "\<not> is_space (canonicalize c)" by (cases p) auto
  then show ?thesis using count_from_blank assms(2) by (simp add: match_count_def)
qed

lemma count_filler_blank:
  "p \<in> set fillerWords \<Longrightarrow> list_all is_space t \<Longrightarrow> count_filler t m p = m"
  by (simp add: count_filler_def match_count_blank)

lemma foldl_count_filler_blank:
  "set ps \<subseteq> set fillerWords \<Longrightarrow> list_all is_space t \<Longrightarrow> foldl (count_filler t) m ps = m"
  by (induction ps arbitrary: m) (simp_all add: count_filler_blank)

lemma cleanWord_Nil: "cleanWord [] = []" by (simp add: cleanWord_def)

lemma processTranscript_blank_interim:
  "list_all is_space t \<Longrightarrow> processTranscript t True m = m"
  by (simp add: processTranscript_def words_of_blank process_word_empty cleanWord_Nil)

lemma processTranscript_blank_final:
  "list_all is_space t \<Longrightarrow> processTranscript t False m = m\<lparr>wordCount := wordCount m + 1\<rparr>"
  by (simp add: processTranscript_def words_of_blank process_word_empty cleanWord_Nil
      foldl_count_filler_blank)

lemma process_word_card:
  "finite (uniqueWords m) \<Longrightarrow>
     finite (uniqueWords (process_word m w)) \<and>
     card (uniqueWords (process_word m w)) \<le> card (uniqueWords m) + 1 \<and>
     wordCount (process_word m w) = wordCount m"
  by (auto simp: process_word_def Let_def card_insert_if)

lemma foldl_process_word_card:
  "finite (uniqueWords m) \<Longrightarrow>
     finite (uniqueWords (foldl process_word m ws)) \<and>
     card (uniqueWords (foldl process_word m ws)) \<le> card (uniqueWords m) + length ws \<and>
     wordCount (foldl process_word m ws) = wordCount m"
proof (induction ws arbitrary: m)
  case Nil
  then show ?case by simp
next
  case (Cons w ws)
  from process_word_card [OF Cons.prems, of w] Cons.IH [of "process_word m w"]
  show ?case by simp
qed

lemma count_filler_frame:
  "uniqueWords (count_filler t m p) = uniqueWords m \<and> wordCount (count_filler t m p) = wordCount m"
  by (simp add: count_filler_def Let_def)

lemma foldl_count_filler_frame:
  "uniqueWords (foldl (count_filler t) m ps) = uniqueWords m \<and>
   wordCount (foldl (count_filler t) m ps) = wordCount m"
  by (induction ps arbitrary: m) (simp_all add: count_filler_frame)

lemma processTranscript_final_counted:
  assumes "counted m" shows "counted (processTranscript t False m)"
proof -
  let ?m1 = "m\<lparr>wordCount := wordCount m + length (words_of t)\<rparr>"
  have "finite (uniqueWords ?m1)" using assms by (simp add: counted_def)
  from foldl_process_word_card [OF this, of "words_of t"] assms
  show ?thesis
    by (simp add: processTranscript_def counted_def Let_def foldl_count_filler_frame)
qed

lemma to_double_nonneg: "0 \<le> x \<Longrightarrow> 0 \<le> to_double x"
  using to_double_pos [of x] by (cases "x = 0") (simp_all add: to_double_zero less_imp_le)

lemma to_double_unit:
  assumes "0 \<le> x" "x \<le> 1" shows "to_double x \<le> 1"
  using to_double_le_one [of x] assms by (cases "x = 0") (simp_all add: to_double_zero)

lemma to_double_nonpos:
  assumes "x \<le> 0" shows "to_double x \<le> 0"
proof (cases "x = 0")
  case True
  then show ?thesis by (simp add: to_double_zero)
next
  case False
  with assms have "x < 0" by simp
  then show ?thesis using to_double_neg by (simp add: less_imp_le)
qed

lemma minutes_since_pos: "0 < minutes_since (Some t) now \<longleftrightarrow> t < now"
proof
  assume "t < now"
  then have "0 < (of_int (now - t) :: rat) / 1000" by simp
  then have "0 < to_double (of_int (now - t) / 1000)" by (rule to_double_pos)
  then have "0 < to_double (of_int (now - t) / 1000) / 60" by simp
  then have "0 < to_double (to_double (of_int (now - t) / 1000) / 60)" by (rule to_double_pos)
  then show "0 < minutes_since (Some t) now" by (simp add: minutes_since_def fdiv_def)
next
  assume pos: "0 < minutes_since (Some t) now"
  show "t < now"
  proof (rule ccontr)
    assume "\<not> t < now"
    then have "(of_int (now - t) :: rat) / 1000 \<le> 0" by simp
    then have "to_double (of_int (now - t) / 1000) \<le> 0" by (rule to_double_nonpos)
    then have "to_double (of_int (now - t) / 1000) / 60 \<le> 0" by simp
    then have "to_double (to_double (of_int (now - t) / 1000) / 60) \<le> 0"
      by (rule to_double_nonpos)
    with pos show False by (simp add: minutes_since_def fdiv_def)
  qed
qed

lemma toFixed2_zero: "toFixed2 0 = ''0.00''"
  by code_simp

section \<open>The life cycle of the examples\<close>

lemma constructor_idle: "constructor True = (Supported idle, [])"
  by (simp add: constructor_def idle_def)

lemma start_listening:
  "start True 1000 7 (setAnalyticsUpdateCallback True (fst (constructor True))) =
     (None, Supported listening,
      [RecognitionStart, SetInterval 7, ConsoleLog ''Speech recognition started''])"
  by (simp add: start_def start_try_def setAnalyticsUpdateCallback_def constructor_def
      listening_def Let_def)

lemma unsupported_noop:
  "start src_ok now handle (Unsupported t a) = (None, Unsupported t a, []) \<and>
   stop src_ok now now' (Unsupported t a) = (None, Unsupported t a, [])"
  by (simp add: start_def stop_def)

text \<open>
  \<open>start()\<close> and \<open>stop()\<close> catch what the source throws. A \<open>stop()\<close> leaves the same
  manager whether the source throws or not; a \<open>start()\<close> whose source throws has set
  \<open>isRecording\<close> and nothing else.
\<close>

lemma start_stop_return_normally:
  "fst (start src_ok now handle obj) = None \<and> fst (stop src_ok now now' obj) = None"
  by (simp add: start_def stop_def start_try_def stop_try_def Let_def
      split: SpeechRecognitionManager.splits prod.splits option.splits)

lemma stop_state:
  "fst (snd (stop src_ok now now' (Supported m))) = Supported (m\<lparr>isRecording := False\<rparr>)"
  by (simp add: stop_def stop_try_def updateAnalytics_def Let_def)

lemma failed_stop_trace:
  "snd (snd (stop False now now' (Supported m))) =
     [RecognitionStop, ConsoleError ''Error stopping speech recognition:'']"
  by (simp add: stop_def stop_try_def Let_def)

lemma failed_start:
  "start False now handle (Supported m) =
     (None, Supported (m\<lparr>isRecording := True\<rparr>),
      [RecognitionStart, ConsoleError ''Error starting speech recognition:''])"
  by (simp add: start_def start_try_def Let_def)

text \<open>
  After \<open>stop()\<close> the source ends and \<open>onend\<close> finds the manager no longer recording: it
  reports a last time on its own account, whatever the time elapsed.
\<close>

lemma end_when_stopped:
  assumes "\<not> isRecording m" and "truthy_time (startTime m)" and "onAnalyticsUpdate m"
  shows "handle_end src_ok now (Supported m) =
           (None, Supported m,
            [ClearInterval (analyticsTimer m), AnalyticsUpdate (snapshot now m) True])"
  using assms by (simp add: handle_end_def updateAnalytics_def Let_def)

section \<open>Vocabulary diversity\<close>

lemma diversity_of_nonneg: "0 \<le> diversity_of m"
  by (simp add: diversity_of_def fdiv_def to_double_nonneg)

lemma diversity_of_counted:
  assumes "counted m" shows "diversity_of m \<le> 1"
proof (cases "0 < wordCount m")
  case True
  from assms have "card (uniqueWords m) \<le> wordCount m" by (simp add: counted_def)
  then have "(of_nat (card (uniqueWords m)) :: rat) \<le> of_nat (wordCount m)"
    by (simp only: of_nat_le_iff)
  then have "(of_nat (card (uniqueWords m)) :: rat) / of_nat (wordCount m) \<le> 1"
    using True by (simp add: divide_le_eq_1)
  moreover have "0 \<le> (of_nat (card (uniqueWords m)) :: rat) / of_nat (wordCount m)" by simp
  ultimately show ?thesis using True by (simp add: diversity_of_def fdiv_def to_double_unit)
next
  case False
  then show ?thesis by (simp add: diversity_of_def)
qed

lemma result_step_counted:
  assumes "counted (snd (snd acc))" "snd r"
  shows "counted (snd (snd (result_step acc r)))"
  using assms
  by (cases acc; cases r) (simp add: result_step_def processTranscript_final_counted)

lemma foldl_result_step_counted:
  "counted (snd (snd acc)) \<Longrightarrow> list_all snd rs \<Longrightarrow>
     counted (snd (snd (foldl result_step acc rs)))"
  by (induction rs arbitrary: acc) (simp_all add: result_step_counted)

lemma onresult_counted:
  assumes "counted m" "list_all snd rs" shows "counted (fst (onresult rs now m))"
proof -
  obtain i f m1 where f: "foldl result_step ([], [], m) rs = (i, f, m1)"
    by (cases "foldl result_step ([], [], m) rs")
  from foldl_result_step_counted [of "([], [], m)" rs] assms f have "counted m1" by simp
  then show ?thesis
    by (simp add: onresult_def f Let_def updateAnalytics_def counted_def split: prod.splits)
qed

lemma feed_counted:
  "counted m \<Longrightarrow> only_final es \<Longrightarrow> counted (feed es m)"
  by (induction es arbitrary: m) (simp_all add: only_final_def onresult_counted)

lemma start_try_counted: "counted (fst (snd (start_try True now handle m)))"
  by (simp add: start_try_def counted_def Let_def)

section \<open>Clean tokens\<close>

lemma underscore_code: "(code_unit c = 95) = (c = CHR ''_'')"
proof -
  have "(of_char c = (of_char (CHR ''_'') :: nat)) = (c = CHR ''_'')" by (rule of_char_eq_iff)
  then show ?thesis by (simp add: code_unit_def)
qed

lemma keep_alnum: "(is_word c \<and> c \<noteq> CHR ''_'') = is_alnum c"
  using underscore_code [of c] by (auto simp: is_word_def is_alnum_def Let_def)

lemma cleanWord_no_space:
  "list_all (\<lambda>c. \<not> is_space c) w \<Longrightarrow> cleanWord w = filter is_alnum w"
  unfolding cleanWord_def by (rule filter_cong) (simp_all add: keep_alnum list_all_iff)

section \<open>Counting words\<close>

text \<open>
  What \<open>wordCount\<close> counts: the pieces \<open>split\<close> returns are the white-space-delimited
  tokens of the fragment, except that a fragment without any token still yields one
  piece, the empty one. So every final fragment adds the number of its tokens, and 1 when
  it has none.
\<close>

lemma foldl_process_word_wordCount:
  "wordCount (foldl process_word m ws) = wordCount m"
proof (induction ws arbitrary: m)
  case Nil
  then show ?case by simp
next
  case (Cons w ws)
  have "wordCount (process_word m w) = wordCount m" by (simp add: process_word_def Let_def)
  with Cons.IH [of "process_word m w"] show ?case by simp
qed

lemma split_from_not_Nil: "split_from cur b s \<noteq> []"
  by (induction cur b s rule: split_from.induct) simp_all

lemma split_from_tokens:
  assumes "s \<noteq> []" "\<not> is_space (last s)"
    and "b \<Longrightarrow> cur = []" and "\<not> b \<Longrightarrow> cur = [] \<Longrightarrow> \<not> is_space (hd s)"
  shows "split_from cur b s = tokens_from cur s"
  using assms
proof (induction s arbitrary: cur b)
  case Nil
  then show ?case by simp
next
  case (Cons c cs)
  show ?case
  proof (cases "is_space c")
    case True
    with Cons.prems have cs: "cs \<noteq> []" "\<not> is_space (last cs)" by (auto split: if_splits)
    have ih: "split_from [] True cs = tokens_from [] cs"
      by (rule Cons.IH) (use cs in simp_all)
    show ?thesis
    proof (cases b)
      case True
      with Cons.prems have "cur = []" by simp
      with True \<open>is_space c\<close> ih show ?thesis by simp
    next
      case False
      with Cons.prems \<open>is_space c\<close> have "cur \<noteq> []" by auto
      with False \<open>is_space c\<close> ih show ?thesis by simp
    qed
  next
    case False
    show ?thesis
    proof (cases "cs = []")
      case True
      with False show ?thesis by simp
    next
      case cs: False
      with Cons.prems have "\<not> is_space (last cs)" by simp
      with cs have "split_from (cur @ [c]) False cs = tokens_from (cur @ [c]) cs"
        by (intro Cons.IH) simp_all
      with False show ?thesis by simp
    qed
  qed
qed

lemma tokens_from_dropWhile: "tokens_from [] (dropWhile is_space s) = tokens_from [] s"
  by (induction s) simp_all

lemma tokens_from_blank: "list_all is_space ws \<Longrightarrow> tokens_from cur ws = tokens_from cur []"
  by (induction ws arbitrary: cur) simp_all

lemma tokens_from_append_blank:
  "list_all is_space ws \<Longrightarrow> tokens_from cur (s @ ws) = tokens_from cur s"
proof (induction s arbitrary: cur)
  case Nil
  then show ?case using tokens_from_blank by simp
next
  case (Cons c cs)
  then show ?case by simp
qed

lemma trim_tokens: "tokens_from [] (trim t) = tokens_from [] t"
proof -
  let ?d = "dropWhile is_space t"
  have "?d = rev (dropWhile is_space (rev ?d)) @ rev (takeWhile is_space (rev ?d))"
    by (metis rev_append rev_rev_ident takeWhile_dropWhile_id)
  moreover have "list_all is_space (rev (takeWhile is_space (rev ?d)))"
    by (simp add: list_all_iff) (meson set_takeWhileD)
  ultimately have "tokens_from [] ?d = tokens_from [] (rev (dropWhile is_space (rev ?d)))"
    using tokens_from_append_blank by metis
  then show ?thesis by (simp add: trim_def tokens_from_dropWhile)
qed

lemma is_space_toLowerCase_char: "is_space (toLowerCase_char c) = is_space c"
  by (auto simp: is_space_def toLowerCase_char_def code_unit_def Let_def)

lemma tokens_from_map_length:
  assumes "\<And>c. is_space (f c) = is_space c"
  shows "(cur' = []) = (cur = []) \<Longrightarrow>
     length (tokens_from cur' (map f s)) = length (tokens_from cur s)"
proof (induction s arbitrary: cur cur')
  case Nil
  then show ?case by simp
next
  case (Cons c cs)
  have a: "length (tokens_from [] (map f cs)) = length (tokens_from [] cs)"
    by (rule Cons.IH) simp
  have b: "length (tokens_from (cur' @ [f c]) (map f cs)) = length (tokens_from (cur @ [c]) cs)"
    by (rule Cons.IH) simp
  from a b Cons.prems show ?case by (simp add: assms)
qed

lemma tokens_from_toLowerCase:
  "length (tokens_from [] (toLowerCase s)) = length (tokens_from [] s)"
  unfolding toLowerCase_def
  by (rule tokens_from_map_length) (simp_all add: is_space_toLowerCase_char)

lemma trim_ends:
  assumes "trim t \<noteq> []" shows "\<not> is_space (hd (trim t)) \<and> \<not> is_space (last (trim t))"
proof -
  let ?d = "dropWhile is_space t"
  let ?e = "dropWhile is_space (rev ?d)"
  from assms have e: "?e \<noteq> []" by (simp add: trim_def)
  then have d: "?d \<noteq> []"
    by (cases "dropWhile is_space t") (simp_all del: dropWhile_eq_Nil_conv)
  have "last (trim t) = hd ?e" by (simp add: trim_def last_rev)
  then have l: "\<not> is_space (last (trim t))" using hd_dropWhile [OF e] by simp
  have "hd (trim t) = last ?e" by (simp add: trim_def hd_rev)
  also have "\<dots> = last (rev ?d)"
    by (metis e append_Nil2 last_appendR takeWhile_dropWhile_id)
  also have "\<dots> = hd ?d" by (simp add: last_rev)
  finally have "\<not> is_space (hd (trim t))" using hd_dropWhile [OF d] by simp
  with l show ?thesis by simp
qed

lemma words_of_length: "length (words_of t) = max 1 (length (ws_tokens t))"
proof (cases "trim t = []")
  case True
  then have "tokens_from [] t = []" using trim_tokens [of t] by simp
  with True show ?thesis
    by (simp add: words_of_def ws_tokens_def toLowerCase_def split_ws_def)
next
  case False
  let ?u = "toLowerCase (trim t)"
  from False have u: "?u \<noteq> []" by (simp add: toLowerCase_def)
  from trim_ends [OF False] False
  have "\<not> is_space (hd ?u) \<and> \<not> is_space (last ?u)"
    by (simp add: toLowerCase_def hd_map last_map is_space_toLowerCase_char)
  then have eq: "split_from [] False ?u = tokens_from [] ?u"
    using u by (intro split_from_tokens) simp_all
  have "length (tokens_from [] ?u) = length (tokens_from [] (trim t))"
    by (rule tokens_from_toLowerCase)
  then have len: "length (split_from [] False ?u) = length (tokens_from [] t)"
    using eq trim_tokens by simp
  have "1 \<le> length (split_from [] False ?u)"
    using split_from_not_Nil [of "[]" False ?u] by (cases "split_from [] False ?u") simp_all
  with len show ?thesis by (simp add: words_of_def split_ws_def ws_tokens_def)
qed

lemma processTranscript_final_wordCount:
  "wordCount (processTranscript t False m) = wordCount m + max 1 (length (ws_tokens t))"
proof -
  let ?m1 = "m\<lparr>wordCount := wordCount m + length (words_of t)\<rparr>"
  have "wordCount (foldl process_word ?m1 (words_of t)) = wordCount ?m1"
    by (rule foldl_process_word_wordCount)
  then show ?thesis
    by (simp add: processTranscript_def Let_def foldl_count_filler_frame words_of_length)
qed

lemma result_step_final_wordCount:
  assumes "snd r"
  shows "wordCount (snd (snd (result_step acc r))) =
           wordCount (snd (snd acc)) + max 1 (length (ws_tokens (fst r)))"
  using assms
  by (cases acc; cases r) (simp add: result_step_def processTranscript_final_wordCount)

lemma foldl_result_step_wordCount:
  "list_all snd rs \<Longrightarrow>
     wordCount (snd (snd (foldl result_step acc rs))) =
       wordCount (snd (snd acc)) + sum_list (map (\<lambda>t. max 1 (length (ws_tokens t))) (map fst rs))"
  by (induction rs arbitrary: acc) (simp_all add: result_step_final_wordCount)

lemma onresult_wordCount:
  assumes "list_all snd rs"
  shows "wordCount (fst (onresult rs now m)) =
           wordCount m + sum_list (map (\<lambda>t. max 1 (length (ws_tokens t))) (map fst rs))"
proof -
  obtain i f m1 where f: "foldl result_step ([], [], m) rs = (i, f, m1)"
    by (cases "foldl result_step ([], [], m) rs")
  from foldl_result_step_wordCount [OF assms, of "([], [], m)"] f
  have "wordCount m1 = wordCount m + sum_list (map (\<lambda>t. max 1 (length (ws_tokens t))) (map fst rs))"
    by simp
  then show ?thesis
    by (simp add: onresult_def f Let_def updateAnalytics_def split: prod.splits)
qed

lemma feed_wordCount:
  "only_final es \<Longrightarrow>
     wordCount (feed es m) =
       wordCount m + sum_list (map (\<lambda>t. max 1 (length (ws_tokens t))) (fragments es))"
proof (induction es arbitrary: m)
  case Nil
  then show ?case by (simp add: fragments_def)
next
  case (Cons e es)
  then have "list_all snd (fst e)" "only_final es" by (simp_all add: only_final_def)
  with Cons.IH [of "fst (onresult (fst e) (snd e) m)"] onresult_wordCount [of "fst e" "snd e" m]
  show ?case by (simp add: fragments_def)
qed

section \<open>The claims of the specification\<close>

subsection \<open>The final snapshot of \<open>stop()\<close>\<close>

text \<open>
  C1, as amended. In a session whose \<open>startTime\<close> is set (to a reading other than 0) and
  whose analytics callback is installed, a \<open>stop()\<close> during which the source does not
  throw stops the source, clears the timer and then, when the clock has advanced since
  the start, delivers exactly one snapshot, flagged final; when the clock has not
  advanced it delivers no snapshot at all, final or not, and logs the warning in its
  place.
\<close>

theorem stop_final_snapshot:
  assumes "startTime m = Some t" and "t \<noteq> 0" and "onAnalyticsUpdate m"
  shows "snd (snd (stop True now now' (Supported m))) =
           [RecognitionStop, ClearInterval (analyticsTimer m)] @
           (if t < now then [AnalyticsUpdate (snapshot now' (m\<lparr>isRecording := False\<rparr>)) True]
            else [ConsoleWarn ''Speech duration too short to calculate analytics.'']) @
           [ConsoleLog ''Speech recognition stopped''] \<and>
         updates (snd (snd (stop True now now' (Supported m)))) =
           (if t < now then [(snapshot now' (m\<lparr>isRecording := False\<rparr>), True)] else []) \<and>
         final_updates (snd (snd (stop True now now' (Supported m)))) =
           (if t < now then [snapshot now' (m\<lparr>isRecording := False\<rparr>)] else []) \<and>
         (ConsoleWarn ''Speech duration too short to calculate analytics.''
            \<in> set (snd (snd (stop True now now' (Supported m))))) = (\<not> t < now)"
  using assms
  by (simp add: stop_def stop_try_def Let_def truthy_time_def minutes_since_pos
      updateAnalytics_def)

text \<open>
  C1, witness: a minute after the start, \<open>stop()\<close> delivers one snapshot, the final one.
\<close>

theorem stop_final_snapshot_witness:
  "startTime listening = Some 1000 \<and> onAnalyticsUpdate listening \<and>
   updates (snd (snd (stop True 61000 61002 (Supported listening)))) =
     [(snapshot 61002 (listening\<lparr>isRecording := False\<rparr>), True)] \<and>
   final_updates (snd (snd (stop True 61000 61002 (Supported listening)))) =
     [snapshot 61002 (listening\<lparr>isRecording := False\<rparr>)]"
proof -
  have h: "startTime listening = Some 1000" "(1000::int) \<noteq> 0" "onAnalyticsUpdate listening"
    by (simp_all add: listening_def)
  from stop_final_snapshot [OF h, of 61000 61002] h show ?thesis by simp
qed

text \<open>
  C1, counterexample: \<open>stop()\<close> in the millisecond of the start. The session is active,
  the source does not throw, and the trace holds the warning and no snapshot at all.
\<close>

theorem stop_zero_duration_counterexample:
  "startTime listening = Some 1000 \<and> onAnalyticsUpdate listening \<and>
   snd (snd (stop True 1000 1000 (Supported listening))) =
     [RecognitionStop, ClearInterval (Some 7),
      ConsoleWarn ''Speech duration too short to calculate analytics.'',
      ConsoleLog ''Speech recognition stopped''] \<and>
   updates (snd (snd (stop True 1000 1000 (Supported listening)))) = [] \<and>
   final_updates (snd (snd (stop True 1000 1000 (Supported listening)))) = []"
  by code_simp

subsection \<open>Counting the words of final fragments\<close>

text \<open>
  C2, at the failing input: a session that receives the empty string as its one final
  fragment. The fragment has no white-space-delimited token, and \<open>wordCount\<close> is 1.
  By \<open>feed_wordCount\<close> the fragments without a token are the only ones miscounted.
\<close>

theorem empty_final_fragment_wordCount:
  "only_final [([([], True)], 2000)] \<and>
   wordCount (feed [([([], True)], 2000)] listening) = 1 \<and>
   sum_list (map (\<lambda>t. length (ws_tokens t)) (fragments [([([], True)], 2000)])) = 0"
  by code_simp

subsection \<open>The range of the vocabulary diversity\<close>

text \<open>
  C3, as amended. The vocabulary diversity is never negative; it is exactly 0, reported
  as \<open>0.00\<close>, when \<open>wordCount\<close> is 0; and it is at most 1 in a session that has received
  only final fragments since its start.
\<close>

theorem vocabularyDiversity_bounds:
  "0 \<le> diversity_of m \<and>
   (wordCount m = 0 \<longrightarrow>
      diversity_of m = 0 \<and> vocabularyDiversity (snapshot now m) = ''0.00'') \<and>
   (only_final es \<longrightarrow>
      diversity_of (feed es (fst (snd (start_try True t0 handle m0)))) \<le> 1)"
proof (intro conjI impI)
  show "0 \<le> diversity_of m" by (rule diversity_of_nonneg)
next
  assume "wordCount m = 0"
  then show "diversity_of m = 0" by (simp add: diversity_of_def)
next
  assume "wordCount m = 0"
  then have "diversity_of m = 0" by (simp add: diversity_of_def)
  then show "vocabularyDiversity (snapshot now m) = ''0.00''"
    by (simp add: snapshot_def Let_def toFixed2_zero)
next
  assume "only_final es"
  then have "counted (feed es (fst (snd (start_try True t0 handle m0))))"
    by (simp add: feed_counted start_try_counted)
  then show "diversity_of (feed es (fst (snd (start_try True t0 handle m0)))) \<le> 1"
    by (rule diversity_of_counted)
qed

text \<open>
  C3, witness: a restarted session with the one final fragment \<open>a b\<close>, and the session
  before its first word.
\<close>

theorem vocabularyDiversity_bounds_witness:
  "only_final [([(''a b'', True)], 2000)] \<and>
   diversity_of (feed [([(''a b'', True)], 2000)]
     (fst (snd (start_try True 1000 7 listening)))) \<le> 1 \<and>
   wordCount listening = 0 \<and> diversity_of listening = 0 \<and>
   vocabularyDiversity (snapshot 2000 listening) = ''0.00''"
proof -
  have a: "only_final [([(''a b'', True)], 2000)]"
    by (simp add: only_final_def)
  have b: "wordCount listening = 0" by (simp add: listening_def)
  from vocabularyDiversity_bounds [of listening 2000 "[([(''a b'', True)], 2000)]" 1000 7 listening]
    a b
  show ?thesis by simp
qed

text \<open>
  C3, counterexample: the interim fragment \<open>a b\<close> followed by the final fragment \<open>c\<close>.
  One word is counted, three distinct words are collected, and the diversity is 3.
\<close>

theorem diversity_above_one_counterexample:
  "0 < wordCount (feed [([(''a b'', False)], 2000), ([(''c'', True)], 3000)] listening) \<and>
   diversity_of (feed [([(''a b'', False)], 2000), ([(''c'', True)], 3000)] listening) = 3"
  by code_simp

subsection \<open>The degraded mode\<close>

text \<open>
  C4, at the failing input: the manager constructed on a platform without recognition.
  \<open>getTranscript()\<close> and \<open>isListening()\<close> return \<open>undefined\<close>, not the empty string and
  \<open>false\<close>. \<open>start()\<close> and \<open>stop()\<close> do nothing there (\<open>unsupported_noop\<close>).
\<close>

theorem unsupported_accessors_undefined:
  "getTranscript (fst (constructor False)) = JUndefined \<and>
   isListening (fst (constructor False)) = JUndefined \<and>
   getTranscript (fst (constructor False)) \<noteq> JStr [] \<and>
   isListening (fst (constructor False)) \<noteq> JBool False"
  by (simp add: constructor_def getTranscript_def isListening_def)

subsection \<open>Empty and blank fragments\<close>

text \<open>
  C5, at the failing input: the empty fragment and a fragment of three spaces, processed
  as final. Each raises \<open>wordCount\<close> by one and leaves every other field as it was.
  Processed as interim, a blank fragment changes nothing
  (\<open>processTranscript_blank_interim\<close>).
\<close>

theorem blank_final_fragment_counts_a_word:
  "processTranscript [] False m = m\<lparr>wordCount := wordCount m + 1\<rparr> \<and>
   processTranscript ''   '' False m = m\<lparr>wordCount := wordCount m + 1\<rparr> \<and>
   wordCount (processTranscript ''   '' False m) \<noteq> wordCount m"
proof -
  have "list_all is_space []" "list_all is_space ''   ''"
    by (simp_all add: is_space_def code_unit_def)
  then show ?thesis by (simp add: processTranscript_blank_final)
qed

subsection \<open>The emotional tone\<close>

text \<open>
  C6, as amended. A snapshot computed while a session is active and delivered to the
  analytics callback holds, when the three counters sum to more than 0, each counter's
  share of the sum as a string of two decimals; when the sum is 0 it holds the numbers
  0, 0 and 1, which are not strings.
\<close>

theorem emotionalTone_shares:
  assumes "truthy_time (startTime m)" and "onAnalyticsUpdate m"
  shows "updateAnalytics isFinal now m = (m, [AnalyticsUpdate (snapshot now m) isFinal]) \<and>
         emotionalTone (snapshot now m) =
           (let e = emotionScores m; total = positive e + negative e + neutral e
            in if 0 < total
               then \<lparr>positive = JStr (toFixed2 (fdiv (of_nat (positive e)) (of_nat total))),
                     negative = JStr (toFixed2 (fdiv (of_nat (negative e)) (of_nat total))),
                     neutral = JStr (toFixed2 (fdiv (of_nat (neutral e)) (of_nat total)))\<rparr>
               else \<lparr>positive = JNum 0, negative = JNum 0, neutral = JNum 1\<rparr>)"
  using assms by (simp add: updateAnalytics_def snapshot_def tone_of_def Let_def)

text \<open>C6, witness: one positive, two negative and one neutral word have been heard.\<close>

theorem emotionalTone_shares_witness:
  "emotionalTone
     (snapshot 3000 (listening\<lparr>emotionScores := \<lparr>positive = 1, negative = 2, neutral = 1\<rparr>\<rparr>)) =
     \<lparr>positive = JStr ''0.25'', negative = JStr ''0.50'', neutral = JStr ''0.25''\<rparr>"
proof -
  let ?m = "listening\<lparr>emotionScores := \<lparr>positive = 1, negative = 2, neutral = 1\<rparr>\<rparr>"
  have a: "truthy_time (startTime ?m)" by (simp add: listening_def truthy_time_def)
  have b: "onAnalyticsUpdate ?m" by (simp add: listening_def)
  have c: "toFixed2 (fdiv 1 4) = ''0.25''" "toFixed2 (fdiv 2 4) = ''0.50''" by code_simp+
  from emotionalTone_shares [OF a b, of False 3000] c show ?thesis by (simp add: Let_def)
qed

text \<open>
  C6, counterexample: the tick of the timer before any sentiment word. The tone
  delivered is \<open>{positive: 0, negative: 0, neutral: 1}\<close> in numbers, which is not the
  object of the strings \<open>0.00\<close>, \<open>0.00\<close> and \<open>1.00\<close>.
\<close>

theorem emotionalTone_default_counterexample:
  "emotionScores listening = \<lparr>positive = 0, negative = 0, neutral = 0\<rparr> \<and>
   map (\<lambda>u. emotionalTone (fst u)) (updates (snd (handle_tick 3000 (Supported listening)))) =
     [\<lparr>positive = JNum 0, negative = JNum 0, neutral = JNum 1\<rparr>] \<and>
   map (\<lambda>u. emotionalTone (fst u)) (updates (snd (handle_tick 3000 (Supported listening)))) \<noteq>
     [\<lparr>positive = JStr ''0.00'', negative = JStr ''0.00'', neutral = JStr ''1.00''\<rparr>]"
  by code_simp

subsection \<open>Exceptions of the source\<close>

text \<open>
  C7, at the failing input: a session is stopped and started again while the source
  still refuses to start. No exception leaves the call and the error is logged, but the
  manager after it is neither the one before the call nor the one a successful
  \<open>start()\<close> leaves: \<open>isRecording\<close> is true again, on the start time, the counters and the
  cleared timer of the old session. The other parts of the claim hold of the code: no
  exception ever leaves \<open>start()\<close> or \<open>stop()\<close> (\<open>start_stop_return_normally\<close>), and a
  \<open>stop()\<close> whose source throws leaves the manager a successful one leaves
  (\<open>stop_state\<close>).
\<close>

theorem failed_start_keeps_recording:
  "fst (snd (stop True 5000 5000 (Supported listening))) =
     Supported (listening\<lparr>isRecording := False\<rparr>) \<and>
   start False 5001 8 (Supported (listening\<lparr>isRecording := False\<rparr>)) =
     (None, Supported listening,
      [RecognitionStart, ConsoleError ''Error starting speech recognition:'']) \<and>
   Supported listening \<noteq> Supported (listening\<lparr>isRecording := False\<rparr>) \<and>
   Supported listening \<noteq>
     fst (snd (start True 5001 8 (Supported (listening\<lparr>isRecording := False\<rparr>)))) \<and>
   isListening (Supported listening) = JBool True"
  by code_simp

subsection \<open>The clean token\<close>

text \<open>
  C8, as amended. The clean token of a token produced by splitting a fragment is the
  token without every code unit that is not one of the letters \<open>A-Z\<close>, \<open>a-z\<close> or a digit:
  the underscore and the letters outside \<open>A-Za-z\<close> are removed too. A token whose clean
  token is empty changes nothing; any other adds its clean token to \<open>uniqueWords\<close>.
\<close>

theorem cleanWord_keeps_letters_and_digits:
  assumes "w \<in> set (words_of t)"
  shows "cleanWord w = filter is_alnum w \<and>
         (if filter is_alnum w = [] then process_word m w = m
          else uniqueWords (process_word m w) = insert (filter is_alnum w) (uniqueWords m))"
proof -
  have c: "cleanWord w = filter is_alnum w"
    using assms by (simp add: words_of_no_space cleanWord_no_space)
  show ?thesis
    unfolding c [symmetric] by (simp add: process_word_def Let_def)
qed

text \<open>C8, witness: the second token of \<open>I DON_T, know\<close>.\<close>

theorem cleanWord_keeps_letters_and_digits_witness:
  "''don_t,'' \<in> set (words_of ''I DON_T, know'') \<and> cleanWord ''don_t,'' = ''dont'' \<and>
   uniqueWords (process_word listening ''don_t,'') = {''dont''}"
proof -
  have a: "''don_t,'' \<in> set (words_of ''I DON_T, know'')" by code_simp
  have b: "filter is_alnum ''don_t,'' = ''dont''" by code_simp
  have c: "uniqueWords listening = {}" by (simp add: listening_def)
  from cleanWord_keeps_letters_and_digits [OF a, of listening] a b c show ?thesis by simp
qed

text \<open>
  C8, counterexample: the token \<open>a_b\<close> loses its underscore, and the token of \<open>c\<close> and
  U+00E9 loses its second letter; in the specification's words both tokens are clean as
  they are.
\<close>

theorem cleanWord_underscore_counterexample:
  "''a_b'' \<in> set (words_of ''a_b'') \<and> cleanWord ''a_b'' = ''ab'' \<and>
   spec_clean_token ''a_b'' = ''a_b'' \<and>
   cleanWord [CHR ''c'', CHR 0xE9] = ''c'' \<and>
   spec_clean_token [CHR ''c'', CHR 0xE9] = [CHR ''c'', CHR 0xE9]"
  by code_simp

subsection \<open>The idle state\<close>

text \<open>
  C9. While \<open>startTime\<close> is unset, \<open>_updateAnalytics\<close> returns at once: the manager is
  unchanged and no callback is called. \<open>stop()\<close> on such a manager returns normally and
  delivers no snapshot, whether the source throws or not.
\<close>

theorem updateAnalytics_idle:
  assumes "startTime m = None"
  shows "updateAnalytics isFinal now m = (m, []) \<and>
         fst (stop src_ok now now' (Supported m)) = None \<and>
         updates (snd (snd (stop src_ok now now' (Supported m)))) = []"
  using assms
  by (simp add: updateAnalytics_def truthy_time_def stop_def stop_try_def Let_def)

text \<open>C9, witness: the manager as the constructor leaves it, never started.\<close>

theorem updateAnalytics_idle_witness:
  "startTime idle = None \<and>
   updateAnalytics True 5000 idle = (idle, []) \<and>
   fst (stop True 5000 5000 (fst (constructor True))) = None \<and>
   updates (snd (snd (stop True 5000 5000 (fst (constructor True))))) = []"
proof -
  have h: "startTime idle = None" by (simp add: idle_def)
  from updateAnalytics_idle [OF h, of True 5000 True 5000] h show ?thesis
    by (simp add: constructor_idle)
qed

subsection \<open>Snapshots read and do not write\<close>

text \<open>
  C10. \<open>_updateAnalytics\<close> leaves the manager as it was, every field of it; computed a
  second time at the same clock reading, it delivers the same snapshot again.
\<close>

theorem updateAnalytics_pure:
  "fst (updateAnalytics isFinal now m) = m \<and>
   updateAnalytics isFinal now (fst (updateAnalytics isFinal now m)) =
     updateAnalytics isFinal now m"
  by (simp add: updateAnalytics_def Let_def)

end
